theory Spec2Isabelle
  imports Main
begin

section \<open>Plug stats of DIM: conditional investment stats and plug descriptions\<close>

text \<open>
  A shallow embedding of \<^verbatim>\<open>src/app/inventory/store/stats-conditional.ts\<close> and of the
  plug description hook that is shipped in the same source file. Hashes are natural
  numbers, stat values are integers (the manifest carries 32-bit integers, on which the
  additions of JavaScript numbers are exact). Every call to \<^verbatim>\<open>warnLog\<close> or
  \<^verbatim>\<open>infoLog\<close> is an event appended to a log that each function returns next to
  its result, so that what is logged can be stated. \<^verbatim>\<open>weakMemoize\<close> only caches
  the result of a pure function by the identity of its argument and is not modelled.
\<close>

subsection \<open>Data model\<close>

datatype DestinyClass = Titan | Hunter | Warlock | Unknown

text \<open>\<^verbatim>\<open>PlugStatActivityRule\<close>: a tagged union on the field \<^verbatim>\<open>rule\<close>.\<close>

datatype PlugStatActivityRule =
    Never
  | ClassType DestinyClass
  | AdeptWeapon
  | Masterwork
  | EnhancedIntrinsic

text \<open>The tag \<^verbatim>\<open>rule.rule\<close> that the consolidation pass compares.\<close>

fun ruleTag :: "PlugStatActivityRule \<Rightarrow> string" where
  "ruleTag Never = ''never''"
| "ruleTag (ClassType c) = ''classType''"
| "ruleTag AdeptWeapon = ''adeptWeapon''"
| "ruleTag Masterwork = ''masterwork''"
| "ruleTag EnhancedIntrinsic = ''enhancedIntrinsic''"

text \<open>
  \<^verbatim>\<open>DestinyItemInvestmentStatDefinition\<close> and \<^verbatim>\<open>DimPlugInvestmentStat\<close> share the
  fields \<^verbatim>\<open>statTypeHash\<close> and \<^verbatim>\<open>value\<close>.
\<close>

record StatEntry =
  statTypeHash :: nat
  "value" :: int

record DestinyItemInvestmentStatDefinition = StatEntry +
  isConditionallyActive :: bool

record DimPlugInvestmentStat = StatEntry +
  activityRule :: "PlugStatActivityRule option"

record Hashed =
  hash :: nat

record DestinyItemPlugDefinition =
  plugCategoryHash :: nat

record DestinyDisplayPropertiesDefinition =
  name :: string
  description :: string

datatype ItemPerkVisibility = Visible | Disabled | Hidden

record PerkRef =
  perkHash :: nat

record DestinyItemPerkEntryDefinition = PerkRef +
  perkVisibility :: ItemPerkVisibility
  requirementDisplayString :: string

record DestinyDefinition = Hashed +
  displayProperties :: DestinyDisplayPropertiesDefinition

type_synonym DestinySandboxPerkDefinition = DestinyDefinition

record DestinyInventoryItemDefinition = DestinyDefinition +
  traitHashes :: "nat list option"
  itemCategoryHashes :: "nat list option"
  plug :: "DestinyItemPlugDefinition option"
  perks :: "DestinyItemPerkEntryDefinition list"
  investmentStats :: "DestinyItemInvestmentStatDefinition list"

record CraftedInfo =
  level :: "nat option"

record DimItem = Hashed +
  classType :: DestinyClass
  masterwork :: bool
  craftedInfo :: "CraftedInfo option"

text \<open>
  The generated enums and JSON tables that the module imports
  (\<^verbatim>\<open>TraitHashes\<close>, \<^verbatim>\<open>PlugCategoryHashes\<close>, \<^verbatim>\<open>StatHashes\<close>,
  \<^verbatim>\<open>ModsWithConditionalStats\<close>, \<^verbatim>\<open>masterworks-with-cond-stats.json\<close>,
  \<^verbatim>\<open>crafting-enhanced-intrinsics\<close>, \<^verbatim>\<open>adept-weapon-hashes.json\<close>) are not part of
  the source file: every function takes them as a parameter.
\<close>

record KnownValues =
  ItemExoticCatalyst :: nat
  CraftingPlugsWeaponsModsEnhancers :: nat
  ElementalCapacitor :: nat
  EnhancedElementalCapacitor :: nat
  EchoOfPersistence :: nat
  SparkOfFocus :: nat
  Mobility :: nat
  Resilience :: nat
  Recovery :: nat
  masterworksWithCondStats :: "nat list"
  enhancedIntrinsics :: "nat set"
  adeptWeaponHashes :: "nat list"

text \<open>
  The community descriptions (\<^verbatim>\<open>Perk\<close> of the Clarity interface): a perk has optional
  lines, a line has optional contents, a content has an optional text. The fields that
  the code does not read are left out; the object spreads of the source keep them, as
  the record updates of the model keep every field they do not name.
\<close>

record LineContent =
  "text" :: "string option"

record Line =
  lineText :: "LineContent list option"

record Perk =
  simpleDescription :: "Line list option"
  statOnly :: "bool option"

text \<open>
  \<^verbatim>\<open>DimPlugPerkDescription\<close> and \<^verbatim>\<open>DimPlugDescriptions\<close>. Their fields
  \<^verbatim>\<open>name\<close>, \<^verbatim>\<open>description\<close> and \<^verbatim>\<open>perks\<close> carry a prime, since the
  definitions of the manifest have fields of these names and of other types.
\<close>

record DimPlugPerkDescription = PerkRef +
  name' :: "string option"
  description' :: "string option"
  requirement :: "string option"

record DimPlugDescriptions =
  perks' :: "DimPlugPerkDescription list"
  communityInsight :: "Perk option"

text \<open>
  Modelled from the spec: the lookups \<^verbatim>\<open>defs.InventoryItem.get\<close> and
  \<^verbatim>\<open>defs.SandboxPerk.get\<close> of the manifest are not among the sources. They are a keyed
  lookup by hash, here partial maps; a missing entry is "the collaborator's contract to
  raise", which the functions below pass on as an error. The constants that the
  description code imports are a parameter as well.
\<close>

record D2ManifestDefinitions =
  InventoryItem :: "nat \<Rightarrow> DestinyInventoryItemDefinition option"
  SandboxPerk :: "nat \<Rightarrow> DestinySandboxPerkDefinition option"

record DescriptionKnownValues =
  EXOTIC_CATALYST_TRAIT :: nat
  echoOfPersistence :: nat
  chargeHarvester :: nat
  ArmorMods :: nat

text \<open>The setting \<^verbatim>\<open>descriptionsToDisplay\<close>.\<close>

datatype DescriptionOptions = Bungie | Community | Both

text \<open>
  What the description code can raise: a failed lookup in the manifest, and the read of
  a field of the \<^verbatim>\<open>undefined\<close> that \<^verbatim>\<open>chargeHarvesterDef.perks[1]\<close> is when that
  definition has fewer than two perks.
\<close>

datatype error = HashLookupFailure | UndefinedPerk

datatype log_event =
    WarnUnknownStatEffect nat string
  | WarnMissingItem
  | WarnMissingClassType
  | WarnBipodWorkaround
  | InfoConsolidating nat nat
  | WarnDuplicateRuleMismatch

type_synonym log = "log_event list"

subsection \<open>Helpers of JavaScript and of the utility module\<close>

text \<open>\<^verbatim>\<open>xs?.includes(x)\<close>: an absent array gives a falsy result.\<close>

definition includesOpt :: "nat list option \<Rightarrow> nat \<Rightarrow> bool" where
  "includesOpt xs x = (case xs of None \<Rightarrow> False | Some ys \<Rightarrow> x \<in> set ys)"

text \<open>\<^verbatim>\<open>Array.prototype.findIndex\<close>; \<open>None\<close> stands for the result \<^verbatim>\<open>-1\<close>.\<close>

fun findIndex :: "('a \<Rightarrow> bool) \<Rightarrow> 'a list \<Rightarrow> nat option" where
  "findIndex p [] = None"
| "findIndex p (x # xs) = (if p x then Some 0 else map_option Suc (findIndex p xs))"

text \<open>
  Modelled from the spec: \<^verbatim>\<open>uniqBy\<close> of \<^verbatim>\<open>app/utils/collections\<close> is not among the
  sources. It keeps, in order, the first element for every key ("no duplicates existed"
  is decided by comparing its length with the length of the list).
\<close>

fun uniqBy :: "'a list \<Rightarrow> ('a \<Rightarrow> 'k) \<Rightarrow> 'a list" where
  "uniqBy [] f = []"
| "uniqBy (x # xs) f = x # uniqBy (filter (\<lambda>y. f y \<noteq> f x) xs) f"

text \<open>
  Modelled from the spec: \<^verbatim>\<open>filterMap\<close> of \<^verbatim>\<open>app/utils/collections\<close> is not among
  the sources. It calls the function on every element and its index, in order, and keeps
  the results that are not \<^verbatim>\<open>undefined\<close>. The function of the model also returns
  what it logs.
\<close>

fun filterMapFrom :: "nat \<Rightarrow> 'a list \<Rightarrow> ('a \<Rightarrow> nat \<Rightarrow> 'b option \<times> log) \<Rightarrow> 'b list \<times> log" where
  "filterMapFrom i [] f = ([], [])"
| "filterMapFrom i (x # xs) f =
     (let (r, l) = f x i;
          (rs, ls) = filterMapFrom (Suc i) xs f
      in (case r of None \<Rightarrow> rs | Some y \<Rightarrow> y # rs, l @ ls))"

definition filterMap :: "'a list \<Rightarrow> ('a \<Rightarrow> nat \<Rightarrow> 'b option \<times> log) \<Rightarrow> 'b list \<times> log" where
  "filterMap xs f = filterMapFrom 0 xs f"

subsection \<open>\<^verbatim>\<open>getPlugInvestmentStatActivityRule\<close>\<close>

definition getPlugInvestmentStatActivityRule ::
  "KnownValues \<Rightarrow> DestinyInventoryItemDefinition \<Rightarrow> DestinyItemInvestmentStatDefinition
     \<Rightarrow> PlugStatActivityRule option \<times> log" where
  "getPlugInvestmentStatActivityRule K itemDef stat =
     (if includesOpt (traitHashes itemDef) (ItemExoticCatalyst K) then (Some Masterwork, [])
      else if \<not> isConditionallyActive stat then (None, [])
      else if map_option plugCategoryHash (plug itemDef) = Some (CraftingPlugsWeaponsModsEnhancers K)
        then (Some Never, [])
      else let defHash = hash itemDef in
        if defHash = ElementalCapacitor K \<or> defHash = EnhancedElementalCapacitor K
          then (Some Never, [])
        else if defHash = EchoOfPersistence K \<or> defHash = SparkOfFocus K then
          (let classType =
             (if statTypeHash stat = Mobility K then Some Hunter
              else if statTypeHash stat = Resilience K then Some Titan
              else if statTypeHash stat = Recovery K then Some Warlock
              else None)
           in case classType of
                None \<Rightarrow> (None, [WarnUnknownStatEffect defHash (name (displayProperties itemDef))])
              | Some c \<Rightarrow> (Some (ClassType c), []))
        else if defHash \<in> set (masterworksWithCondStats K) then (Some AdeptWeapon, [])
        else if defHash \<in> enhancedIntrinsics K then (Some EnhancedIntrinsic, [])
        else (None, []))"

subsection \<open>\<^verbatim>\<open>isPlugStatActive\<close>\<close>

text \<open>
  The rule, the item and the class type may each be absent. \<^verbatim>\<open>classType ??= item?.classType\<close>
  keeps a class type that was passed and reads the item's otherwise.
\<close>

definition warnMissingItem :: "bool \<times> log" where
  "warnMissingItem = (True, [WarnMissingItem])"

definition isPlugStatActive ::
  "KnownValues \<Rightarrow> PlugStatActivityRule option \<Rightarrow> DimItem option \<Rightarrow> DestinyClass option
     \<Rightarrow> bool \<times> log" where
  "isPlugStatActive K rule item classType' =
     (case rule of
        None \<Rightarrow> (True, [])
      | Some Never \<Rightarrow> (False, [])
      | Some (ClassType ruleClass) \<Rightarrow>
          (case (case classType' of Some c \<Rightarrow> Some c | None \<Rightarrow> map_option classType item) of
             None \<Rightarrow> (True, [WarnMissingClassType])
           | Some c \<Rightarrow> (c = ruleClass, []))
      | Some AdeptWeapon \<Rightarrow>
          (case item of
             Some i \<Rightarrow> (hash i \<in> set (adeptWeaponHashes K), [])
           | None \<Rightarrow> warnMissingItem)
      | Some Masterwork \<Rightarrow>
          (case item of
             Some i \<Rightarrow> (masterwork i, [])
           | None \<Rightarrow> warnMissingItem)
      | Some EnhancedIntrinsic \<Rightarrow>
          (case item of
             Some i \<Rightarrow>
               ((case Option.bind (craftedInfo i) level of None \<Rightarrow> 0 | Some l \<Rightarrow> l) \<ge> 20
                  \<or> hash i \<in> set (adeptWeaponHashes K), [])
           | None \<Rightarrow> warnMissingItem))"

subsection \<open>\<^verbatim>\<open>getPlugInvestmentStats\<close>\<close>

text \<open>
  One turn of the loop: the value of an entry whose stat type is already among the
  processed entries is added into that entry, which keeps its other fields; any other
  entry is appended.
\<close>

definition addInvestmentStat ::
  "DestinyItemInvestmentStatDefinition list \<Rightarrow> DestinyItemInvestmentStatDefinition
     \<Rightarrow> DestinyItemInvestmentStatDefinition list" where
  "addInvestmentStat processedStats investmentStat =
     (case findIndex (\<lambda>s. statTypeHash s = statTypeHash investmentStat) processedStats of
        Some existingStatIndex \<Rightarrow>
          (let existingStat = processedStats ! existingStatIndex
           in processedStats[existingStatIndex :=
                existingStat\<lparr>value := value existingStat + value investmentStat\<rparr>])
      | None \<Rightarrow> processedStats @ [investmentStat])"

definition getPlugInvestmentStats ::
  "DestinyItemInvestmentStatDefinition list \<Rightarrow> DestinyItemInvestmentStatDefinition list" where
  "getPlugInvestmentStats stats = foldl addInvestmentStat [] stats"

subsection \<open>\<^verbatim>\<open>mapAndFilterInvestmentStats\<close>\<close>

text \<open>
  The fast path returns the merged raw entries themselves. Read as
  \<^verbatim>\<open>DimPlugInvestmentStat\<close> they have no \<^verbatim>\<open>activityRule\<close>.
\<close>

definition asDimPlugInvestmentStat :: "DestinyItemInvestmentStatDefinition \<Rightarrow> DimPlugInvestmentStat" where
  "asDimPlugInvestmentStat s = \<lparr>statTypeHash = statTypeHash s, value = value s, activityRule = None\<rparr>"

text \<open>
  The flag \<^verbatim>\<open>hasDupes\<close> after the fast-path test: \<open>None\<close> is \<^verbatim>\<open>undefined\<close>, the
  value it keeps when the test of the fast path fails.
\<close>

definition fastPathApplies :: "KnownValues \<Rightarrow> DestinyInventoryItemDefinition
    \<Rightarrow> DestinyItemInvestmentStatDefinition list \<Rightarrow> bool" where
  "fastPathApplies K itemDef stats =
     (\<not> includesOpt (traitHashes itemDef) (ItemExoticCatalyst K)
      \<and> list_all (\<lambda>s. \<not> isConditionallyActive s) stats)"

definition hasDupes :: "KnownValues \<Rightarrow> DestinyInventoryItemDefinition \<Rightarrow> bool option" where
  "hasDupes K itemDef =
     (let stats = getPlugInvestmentStats (investmentStats itemDef)
      in if fastPathApplies K itemDef stats
         then Some (length (uniqBy stats statTypeHash) \<noteq> length stats)
         else None)"

text \<open>
  The function passed to \<^verbatim>\<open>filterMap\<close>. Its second half resolves the rule of the
  entry and drops an entry that is never active.
\<close>

definition resolveStat ::
  "KnownValues \<Rightarrow> DestinyInventoryItemDefinition \<Rightarrow> DestinyItemInvestmentStatDefinition
     \<Rightarrow> DimPlugInvestmentStat option \<times> log" where
  "resolveStat K itemDef stat =
     (let (rule, ruleLog) = getPlugInvestmentStatActivityRule K itemDef stat
      in if rule = Some Never then (None, ruleLog)
         else (Some \<lparr>statTypeHash = statTypeHash stat, value = value stat, activityRule = rule\<rparr>,
               ruleLog))"

text \<open>
  Its first half is the workaround for the enhanced Bipod perk, whose hash is written
  in the source: of exactly four merged entries the last two are dropped, any other
  number of entries is reported, once for every entry the function is called on.
\<close>

definition elaborateStat ::
  "KnownValues \<Rightarrow> DestinyInventoryItemDefinition \<Rightarrow> DestinyItemInvestmentStatDefinition list
     \<Rightarrow> DestinyItemInvestmentStatDefinition \<Rightarrow> nat \<Rightarrow> DimPlugInvestmentStat option \<times> log" where
  "elaborateStat K itemDef stats stat index =
     (if hash itemDef = 2282937672 then
        (if length stats = 4 then
           (if index \<ge> 2 then (None, []) else resolveStat K itemDef stat)
         else
           (let (r, l) = resolveStat K itemDef stat in (r, WarnBipodWorkaround # l)))
      else resolveStat K itemDef stat)"

text \<open>
  The consolidation pass. The array \<^verbatim>\<open>stats\<close> is mutated in place, so the loops pass
  it on together with the log. Both loops count down; the inner one starts at the last
  index of the array as it is when the inner loop begins. Inside the loops
  \<open>idx < idx2 < length stats\<close> always holds, so no read is out of range.
\<close>

definition consolidateStep :: "nat \<Rightarrow> nat \<Rightarrow> DimPlugInvestmentStat list \<times> log
    \<Rightarrow> DimPlugInvestmentStat list \<times> log" where
  "consolidateStep idx idx2 st =
     (let (stats, lg) = st
      in if statTypeHash (stats ! idx) = statTypeHash (stats ! idx2) then
           (if map_option ruleTag (activityRule (stats ! idx))
                 = map_option ruleTag (activityRule (stats ! idx2))
            then ((take idx2 (stats[idx := (stats ! idx)\<lparr>value := value (stats ! idx) + value (stats ! idx2)\<rparr>]))
                    @ drop (Suc idx2) stats,
                  lg @ [InfoConsolidating idx2 idx])
            else (stats, lg @ [WarnDuplicateRuleMismatch]))
         else (stats, lg))"

fun consolidateInner :: "nat \<Rightarrow> nat \<Rightarrow> DimPlugInvestmentStat list \<times> log
    \<Rightarrow> DimPlugInvestmentStat list \<times> log" where
  "consolidateInner idx 0 st = st"
| "consolidateInner idx (Suc j) st =
     (if Suc j > idx then consolidateInner idx j (consolidateStep idx (Suc j) st) else st)"

text \<open>
  \<open>consolidateOuter n\<close> runs the outer loop for \<open>idx = n - 1\<close> down to \<open>0\<close>; it is
  started with \<open>n = length stats - 1\<close>, which is \<open>0\<close> for fewer than two entries.
\<close>

fun consolidateOuter :: "nat \<Rightarrow> DimPlugInvestmentStat list \<times> log
    \<Rightarrow> DimPlugInvestmentStat list \<times> log" where
  "consolidateOuter 0 st = st"
| "consolidateOuter (Suc idx) st =
     consolidateOuter idx (consolidateInner idx (length (fst st) - 1) st)"

definition consolidate :: "DimPlugInvestmentStat list \<times> log \<Rightarrow> DimPlugInvestmentStat list \<times> log" where
  "consolidate st = consolidateOuter (length (fst st) - 1) st"

definition mapAndFilterInvestmentStats ::
  "KnownValues \<Rightarrow> DestinyInventoryItemDefinition \<Rightarrow> DimPlugInvestmentStat list \<times> log" where
  "mapAndFilterInvestmentStats K itemDef =
     (let stats = getPlugInvestmentStats (investmentStats itemDef);
          dupes = hasDupes K itemDef
      in if dupes = Some False then (map asDimPlugInvestmentStat stats, [])
         else
           (let st = filterMap stats (elaborateStat K itemDef stats)
            in if dupes = Some True then consolidate st else st))"

subsection \<open>\<^verbatim>\<open>getPerkDescriptions\<close>\<close>

text \<open>\<^verbatim>\<open>s || undefined\<close> on a string: the empty string is falsy.\<close>

definition orUndefined :: "string \<Rightarrow> string option" where
  "orUndefined s = (if s = [] then None else Some s)"

text \<open>
  The test that every text goes through: a string that was already used is dropped, a
  new one is recorded in \<^verbatim>\<open>usedStrings\<close>.
\<close>

definition useString :: "string set \<Rightarrow> string option \<Rightarrow> string option \<times> string set" where
  "useString usedStrings s =
     (case s of
        None \<Rightarrow> (None, usedStrings)
      | Some t \<Rightarrow> if t \<in> usedStrings then (None, usedStrings) else (Some t, insert t usedStrings))"

definition perkNameOf :: "DestinyInventoryItemDefinition \<Rightarrow> string \<Rightarrow> string option" where
  "perkNameOf plug' perkName =
     (if perkName \<noteq> [] \<and> perkName \<noteq> name (displayProperties plug') then Some perkName else None)"

type_synonym descState = "DimPlugPerkDescription list \<times> string set"

text \<open>
  The perks that \<^verbatim>\<open>addPerkDescriptions\<close> walks through; \<open>None\<close> is an
  \<^verbatim>\<open>undefined\<close> element of the array.
\<close>

definition perksToDescribe ::
  "DescriptionKnownValues \<Rightarrow> DestinyInventoryItemDefinition \<Rightarrow> D2ManifestDefinitions
     \<Rightarrow> error + DestinyItemPerkEntryDefinition option list" where
  "perksToDescribe K plug' defs =
     (if hash plug' = echoOfPersistence K then
        (case InventoryItem defs (chargeHarvester K) of
           None \<Rightarrow> Inl HashLookupFailure
         | Some chargeHarvesterDef \<Rightarrow>
             Inr (map Some (perks plug')
                  @ [if 1 < length (perks chargeHarvesterDef)
                     then Some (perks chargeHarvesterDef ! 1) else None]))
      else Inr (map Some (perks plug')))"

text \<open>One turn of the loop over the perks.\<close>

definition describePerk ::
  "DestinyInventoryItemDefinition \<Rightarrow> D2ManifestDefinitions
     \<Rightarrow> DestinyItemPerkEntryDefinition option \<Rightarrow> descState \<Rightarrow> error + descState" where
  "describePerk plug' defs perk st =
     (case perk of
        None \<Rightarrow> Inl UndefinedPerk
      | Some p \<Rightarrow>
          if perkVisibility p = Hidden then Inr st
          else
            (case SandboxPerk defs (perkHash p) of
               None \<Rightarrow> Inl HashLookupFailure
             | Some sandboxPerk \<Rightarrow>
                 (let (results, usedStrings) = st;
                      perkName = name (displayProperties sandboxPerk);
                      (perkDescription, used1) =
                        useString usedStrings (orUndefined (description (displayProperties sandboxPerk)));
                      (perkRequirement, used2) =
                        useString used1 (orUndefined (requirementDisplayString p))
                  in if perkDescription \<noteq> None \<or> perkRequirement \<noteq> None
                     then Inr (results @ [\<lparr>perkHash = perkHash p,
                                            name' = perkNameOf plug' perkName,
                                            description' = perkDescription,
                                            requirement = perkRequirement\<rparr>], used2)
                     else Inr (results, used2))))"

fun describePerks ::
  "DestinyInventoryItemDefinition \<Rightarrow> D2ManifestDefinitions
     \<Rightarrow> DestinyItemPerkEntryDefinition option list \<Rightarrow> descState \<Rightarrow> error + descState" where
  "describePerks plug' defs [] st = Inr st"
| "describePerks plug' defs (p # ps) st =
     (case describePerk plug' defs p st of
        Inl e \<Rightarrow> Inl e
      | Inr st' \<Rightarrow> describePerks plug' defs ps st')"

definition addPerkDescriptions ::
  "DescriptionKnownValues \<Rightarrow> DestinyInventoryItemDefinition \<Rightarrow> D2ManifestDefinitions
     \<Rightarrow> descState \<Rightarrow> error + descState" where
  "addPerkDescriptions K plug' defs st =
     (case perksToDescribe K plug' defs of
        Inl e \<Rightarrow> Inl e
      | Inr ps \<Rightarrow> describePerks plug' defs ps st)"

definition addDescriptionAsRequirement :: "DestinyInventoryItemDefinition \<Rightarrow> descState \<Rightarrow> descState" where
  "addDescriptionAsRequirement plug' st =
     (let (results, usedStrings) = st
      in case orUndefined (description (displayProperties plug')) of
           None \<Rightarrow> st
         | Some plugDescription \<Rightarrow>
             if plugDescription \<notin> usedStrings
             then (results @ [\<lparr>perkHash = 0, name' = None, description' = None,
                                requirement = Some plugDescription\<rparr>],
                   insert plugDescription usedStrings)
             else st)"

definition addDescriptionAsFunctionality :: "DestinyInventoryItemDefinition \<Rightarrow> descState \<Rightarrow> descState" where
  "addDescriptionAsFunctionality plug' st =
     (let (results, usedStrings) = st
      in case orUndefined (description (displayProperties plug')) of
           None \<Rightarrow> st
         | Some plugDescription \<Rightarrow>
             if plugDescription \<notin> usedStrings
             then (results @ [\<lparr>perkHash = 0, name' = None, description' = Some plugDescription,
                                requirement = None\<rparr>],
                   insert plugDescription usedStrings)
             else st)"

text \<open>The three ways to combine the perks and the description of the plug.\<close>

definition describeByCategory ::
  "DescriptionKnownValues \<Rightarrow> DestinyInventoryItemDefinition \<Rightarrow> D2ManifestDefinitions
     \<Rightarrow> error + descState" where
  "describeByCategory K plug' defs =
     (if includesOpt (traitHashes plug') (EXOTIC_CATALYST_TRAIT K) then
        (case addPerkDescriptions K plug' defs ([], {}) of
           Inl e \<Rightarrow> Inl e
         | Inr st \<Rightarrow> Inr (addDescriptionAsRequirement plug' st))
      else if includesOpt (itemCategoryHashes plug') (ArmorMods K) then
        (case addPerkDescriptions K plug' defs ([], {}) of
           Inl e \<Rightarrow> Inl e
         | Inr st \<Rightarrow>
             if length (fst st) > 0 then Inr (addDescriptionAsRequirement plug' st)
             else Inr (addDescriptionAsFunctionality plug' st))
      else if orUndefined (description (displayProperties plug')) \<noteq> None then
        Inr (addDescriptionAsFunctionality plug' ([], {}))
      else addPerkDescriptions K plug' defs ([], {}))"

text \<open>The fallback that keeps the first perk when nothing was produced.\<close>

definition keepFirstPerk ::
  "DestinyInventoryItemDefinition \<Rightarrow> D2ManifestDefinitions \<Rightarrow> descState \<Rightarrow> error + descState" where
  "keepFirstPerk plug' defs st =
     (let (results, usedStrings) = st
      in if results = [] \<and> perks plug' \<noteq> [] then
           (let firstPerk = hd (perks plug')
            in case SandboxPerk defs (perkHash firstPerk) of
                 None \<Rightarrow> Inl HashLookupFailure
               | Some sandboxPerk \<Rightarrow>
                   (let perkName = name (displayProperties sandboxPerk);
                        (perkDescription, used1) =
                          useString usedStrings (orUndefined (description (displayProperties sandboxPerk)));
                        (perkRequirement, used2) =
                          useString used1 (orUndefined (requirementDisplayString firstPerk))
                    in if perkDescription \<noteq> None \<or> perkRequirement \<noteq> None
                       then Inr (results @ [\<lparr>perkHash = perkHash firstPerk,
                                              name' = perkNameOf plug' perkName,
                                              description' = perkDescription,
                                              requirement = perkRequirement\<rparr>], used2)
                       else Inr (results, used2)))
         else Inr st)"

definition getPerkDescriptions ::
  "DescriptionKnownValues \<Rightarrow> DestinyInventoryItemDefinition \<Rightarrow> D2ManifestDefinitions
     \<Rightarrow> error + descState" where
  "getPerkDescriptions K plug' defs =
     (case describeByCategory K plug' defs of
        Inl e \<Rightarrow> Inl e
      | Inr st \<Rightarrow> keepFirstPerk plug' defs st)"

subsection \<open>\<^verbatim>\<open>stripUsedStrings\<close>\<close>

text \<open>
  The test of the inner \<^verbatim>\<open>filter\<close>: a content is kept when it has no text (absent or
  empty) or when its text is not a used string.
\<close>

definition keepContent :: "string set \<Rightarrow> LineContent \<Rightarrow> bool" where
  "keepContent usedStrings content =
     (case text content of
        None \<Rightarrow> True
      | Some t \<Rightarrow> t = [] \<or> t \<notin> usedStrings)"

definition stripLine :: "string set \<Rightarrow> Line \<Rightarrow> Line" where
  "stripLine usedStrings line =
     (case lineText line of
        Some contents \<Rightarrow> line\<lparr>lineText := Some (filter (keepContent usedStrings) contents)\<rparr>
      | None \<Rightarrow> line)"

text \<open>\<^verbatim>\<open>line.lineText?.length\<close> as a condition: some content is left.\<close>

definition hasContent :: "Line \<Rightarrow> bool" where
  "hasContent line = (case lineText line of None \<Rightarrow> False | Some contents \<Rightarrow> contents \<noteq> [])"

definition stripUsedStrings :: "Perk \<Rightarrow> string set \<Rightarrow> Perk option" where
  "stripUsedStrings communityInsight' usedStrings =
     (case simpleDescription communityInsight' of
        None \<Rightarrow> None
      | Some lines \<Rightarrow>
          (let stripped = map (stripLine usedStrings) lines
           in if \<not> list_ex hasContent stripped then None
              else Some (communityInsight'\<lparr>simpleDescription := Some stripped\<rparr>)))"

subsection \<open>\<^verbatim>\<open>usePlugDescriptions\<close>\<close>

text \<open>
  The hook reads the manifest, the table of community descriptions and the setting from
  the store and the feature flag from the build; here they are arguments. The plug, the
  manifest and the table may be absent.
\<close>

definition truthy :: "bool option \<Rightarrow> bool" where
  "truthy b = (b = Some True)"

definition usePlugDescriptions ::
  "DescriptionKnownValues \<Rightarrow> bool \<Rightarrow> DestinyInventoryItemDefinition option
     \<Rightarrow> D2ManifestDefinitions option \<Rightarrow> (nat \<Rightarrow> Perk option) option \<Rightarrow> DescriptionOptions
     \<Rightarrow> error + DimPlugDescriptions" where
  "usePlugDescriptions K clarityDescriptions plug' defs allClarityDescriptions descriptionsToDisplay =
     (case (plug', defs) of
        (Some p, Some d) \<Rightarrow>
          (let showBungieDescription =
                 (\<not> clarityDescriptions \<or> descriptionsToDisplay \<noteq> Community);
               showCommunityDescription =
                 (clarityDescriptions \<and> descriptionsToDisplay \<noteq> Bungie);
               showCommunityDescriptionOnly =
                 (clarityDescriptions \<and> descriptionsToDisplay = Community)
           in case getPerkDescriptions K p d of
                Inl e \<Rightarrow> Inl e
              | Inr (perkDescriptions, usedStrings) \<Rightarrow>
                  (let insight =
                         (if showCommunityDescription then
                            (case Option.bind allClarityDescriptions (\<lambda>t. t (hash p)) of
                               None \<Rightarrow> None
                             | Some clarityPerk \<Rightarrow>
                                 if \<not> truthy (statOnly clarityPerk) then
                                   (case stripUsedStrings clarityPerk usedStrings of
                                      None \<Rightarrow> None
                                    | Some communityInsightWithoutDupes \<Rightarrow>
                                        Some (if showBungieDescription
                                              then communityInsightWithoutDupes
                                              else clarityPerk))
                                 else None)
                          else None)
                   in Inr \<lparr>perks' =
                             (if showBungieDescription
                                 \<or> (showCommunityDescriptionOnly \<and> insight = None)
                              then perkDescriptions else []),
                           communityInsight = insight\<rparr>))
      | _ \<Rightarrow> Inr \<lparr>perks' = [], communityInsight = None\<rparr>)"

subsection \<open>Notions used in the statements\<close>

text \<open>
  The raw entries of one stat type, in their order, and the entry that the merge makes
  of them: the first one, with the sum of all their values.
\<close>

definition occurrences :: "nat \<Rightarrow> DestinyItemInvestmentStatDefinition list
    \<Rightarrow> DestinyItemInvestmentStatDefinition list" where
  "occurrences h xs = filter (\<lambda>s. statTypeHash s = h) xs"

definition mergedEntry :: "DestinyItemInvestmentStatDefinition list \<Rightarrow> DestinyItemInvestmentStatDefinition" where
  "mergedEntry occ = (hd occ)\<lparr>value := sum_list (map value occ)\<rparr>"

text \<open>
  The elaboration as the spec words it, steps 1 to 5, to be compared with
  \<^verbatim>\<open>mapAndFilterInvestmentStats\<close>: duplicates are detected on the raw entries while
  they are merged, the fast path needs that none existed, and the consolidation pass
  runs over the resolved entries whenever some did.
\<close>

definition duplicatesDetected :: "DestinyItemInvestmentStatDefinition list \<Rightarrow> bool" where
  "duplicatesDetected raw = (\<not> distinct (map statTypeHash raw))"

definition elaborateStatsSpec ::
  "KnownValues \<Rightarrow> DestinyInventoryItemDefinition \<Rightarrow> DimPlugInvestmentStat list \<times> log" where
  "elaborateStatsSpec K itemDef =
     (let stats = getPlugInvestmentStats (investmentStats itemDef);
          duplicates = duplicatesDetected (investmentStats itemDef)
      in if fastPathApplies K itemDef stats \<and> \<not> duplicates
         then (map asDimPlugInvestmentStat stats, [])
         else
           (let st = filterMap stats (elaborateStat K itemDef stats)
            in if duplicates then consolidate st else st))"

text \<open>
  A table of constants with arbitrary distinct values, a definition and a stat entry
  built from their varying fields. They are used where a function is evaluated at a
  concrete input; the general statements hold for every table.
\<close>

definition sampleKnownValues :: KnownValues where
  "sampleKnownValues =
     \<lparr>ItemExoticCatalyst = 1, CraftingPlugsWeaponsModsEnhancers = 2, ElementalCapacitor = 3,
      EnhancedElementalCapacitor = 4, EchoOfPersistence = 5, SparkOfFocus = 6, Mobility = 7,
      Resilience = 8, Recovery = 9, masterworksWithCondStats = [10], enhancedIntrinsics = {11},
      adeptWeaponHashes = [12]\<rparr>"

definition sampleDef ::
  "nat \<Rightarrow> nat list option \<Rightarrow> DestinyItemInvestmentStatDefinition list
     \<Rightarrow> DestinyInventoryItemDefinition" where
  "sampleDef h traits stats =
     \<lparr>hash = h, displayProperties = \<lparr>name = ''Plug'', description = []\<rparr>,
      traitHashes = traits, itemCategoryHashes = None, plug = None, perks = [],
      investmentStats = stats\<rparr>"

definition sampleStat :: "nat \<Rightarrow> int \<Rightarrow> bool \<Rightarrow> DestinyItemInvestmentStatDefinition" where
  "sampleStat h v c = \<lparr>statTypeHash = h, value = v, isConditionallyActive = c\<rparr>"

text \<open>The same for the description code: constants, a plug, a manifest with one perk,
  a community insight of one line and a table that holds it.\<close>

definition sampleDescriptionKnownValues :: DescriptionKnownValues where
  "sampleDescriptionKnownValues =
     \<lparr>EXOTIC_CATALYST_TRAIT = 1, echoOfPersistence = 5, chargeHarvester = 13, ArmorMods = 14\<rparr>"

definition samplePlug ::
  "nat \<Rightarrow> nat list option \<Rightarrow> nat list option \<Rightarrow> string
     \<Rightarrow> DestinyItemPerkEntryDefinition list \<Rightarrow> DestinyInventoryItemDefinition" where
  "samplePlug h traits categories text' ps =
     \<lparr>hash = h, displayProperties = \<lparr>name = ''Plug'', description = text'\<rparr>,
      traitHashes = traits, itemCategoryHashes = categories, plug = None, perks = ps,
      investmentStats = []\<rparr>"

definition sampleManifest :: D2ManifestDefinitions where
  "sampleManifest =
     \<lparr>InventoryItem = (\<lambda>h. None),
      SandboxPerk = (\<lambda>h. if h = 20 then Some \<lparr>hash = 20,
        displayProperties = \<lparr>name = ''Perk'', description = ''Deals fire damage''\<rparr>\<rparr> else None)\<rparr>"

definition samplePerk :: DestinyItemPerkEntryDefinition where
  "samplePerk = \<lparr>perkHash = 20, perkVisibility = Visible, requirementDisplayString = []\<rparr>"

definition sampleInsight :: "string option list \<Rightarrow> Perk" where
  "sampleInsight texts =
     \<lparr>simpleDescription = Some [\<lparr>lineText = Some (map (\<lambda>t. \<lparr>text = t\<rparr>) texts)\<rparr>],
      statOnly = None\<rparr>"

definition sampleClarity :: "nat \<Rightarrow> Perk \<Rightarrow> nat \<Rightarrow> Perk option" where
  "sampleClarity h insight = (\<lambda>k. if k = h then Some insight else None)"

section \<open>Properties\<close>

subsection \<open>The merge of the raw entries\<close>

lemma findIndex_None_iff: "findIndex p xs = None \<longleftrightarrow> (\<forall>x \<in> set xs. \<not> p x)"
  by (induction xs) auto

lemma findIndex_Some:
  "findIndex p xs = Some i \<Longrightarrow> i < length xs \<and> p (xs ! i) \<and> (\<forall>j < i. \<not> p (xs ! j))"
proof (induction xs arbitrary: i)
  case Nil
  then show ?case by simp
next
  case (Cons x xs)
  show ?case
  proof (cases "p x")
    case True
    with Cons.prems show ?thesis by simp
  next
    case False
    with Cons.prems obtain k where k: "findIndex p xs = Some k" "i = Suc k"
      by auto
    from Cons.IH [OF k(1)] False k(2) show ?thesis
      by (auto simp: nth_Cons split: nat.splits)
  qed
qed

lemma keys_addInvestmentStat:
  "map statTypeHash (addInvestmentStat ps s) =
     (if statTypeHash s \<in> set (map statTypeHash ps) then map statTypeHash ps
      else map statTypeHash ps @ [statTypeHash s])"
proof (cases "findIndex (\<lambda>e. statTypeHash e = statTypeHash s) ps")
  case None
  then have "statTypeHash s \<notin> set (map statTypeHash ps)"
    by (auto simp: findIndex_None_iff)
  with None show ?thesis by (simp add: addInvestmentStat_def)
next
  case (Some i)
  from findIndex_Some [OF Some] have i: "i < length ps" "statTypeHash (ps ! i) = statTypeHash s"
    by auto
  then have "statTypeHash s \<in> set (map statTypeHash ps)"
    by (metis length_map nth_map nth_mem)
  moreover have "map statTypeHash (ps[i := (ps ! i)\<lparr>value := value (ps ! i) + value s\<rparr>]) = map statTypeHash ps"
    using i by (simp add: map_update list_update_same_conv)
  ultimately show ?thesis using Some by (simp add: addInvestmentStat_def Let_def)
qed

lemma getPlugInvestmentStats_snoc:
  "getPlugInvestmentStats (xs @ [x]) = addInvestmentStat (getPlugInvestmentStats xs) x"
  by (simp add: getPlugInvestmentStats_def)

lemma keys_getPlugInvestmentStats:
  "map statTypeHash (getPlugInvestmentStats xs) = rev (remdups (rev (map statTypeHash xs)))"
proof (induction xs rule: rev_induct)
  case Nil
  show ?case by (simp add: getPlugInvestmentStats_def)
next
  case (snoc x xs)
  show ?case
    by (simp add: getPlugInvestmentStats_snoc keys_addInvestmentStat snoc.IH)
qed

lemma distinct_getPlugInvestmentStats: "distinct (map statTypeHash (getPlugInvestmentStats xs))"
  by (simp add: keys_getPlugInvestmentStats)

lemma uniqBy_distinct: "distinct (map f xs) \<Longrightarrow> uniqBy xs f = xs"
proof (induction xs)
  case Nil
  show ?case by simp
next
  case (Cons x xs)
  from Cons.prems have "f x \<notin> f ` set xs" by simp
  then have "\<forall>y \<in> set xs. f y \<noteq> f x" by (metis imageI)
  then have "filter (\<lambda>y. f y \<noteq> f x) xs = xs"
    by (simp add: filter_id_conv)
  with Cons show ?case by simp
qed

lemma hasDupes_not_True: "hasDupes K itemDef \<noteq> Some True"
  by (simp add: hasDupes_def Let_def uniqBy_distinct distinct_getPlugInvestmentStats)


lemma distinct_map_nth:
  "distinct (map f xs) \<Longrightarrow> i < length xs \<Longrightarrow> j < length xs \<Longrightarrow> i \<noteq> j
     \<Longrightarrow> f (xs ! i) \<noteq> f (xs ! j)"
  by (metis length_map nth_eq_iff_index_eq nth_map)







subsection \<open>Elaboration of the merged entries\<close>

lemma fst_filterMapFrom_Cons:
  "fst (filterMapFrom i (x # xs) f) =
     (case fst (f x i) of
        None \<Rightarrow> fst (filterMapFrom (Suc i) xs f)
      | Some y \<Rightarrow> y # fst (filterMapFrom (Suc i) xs f))"
  by (cases "f x i"; cases "filterMapFrom (Suc i) xs f"; simp split: option.splits)

lemma snd_filterMapFrom_Cons:
  "snd (filterMapFrom i (x # xs) f) = snd (f x i) @ snd (filterMapFrom (Suc i) xs f)"
  by (cases "f x i"; cases "filterMapFrom (Suc i) xs f"; simp)

lemma filterMapFrom_keys_subset:
  assumes "\<And>x j y. fst (f x j) = Some y \<Longrightarrow> statTypeHash y = statTypeHash x"
  shows "statTypeHash ` set (fst (filterMapFrom i xs f)) \<subseteq> statTypeHash ` set xs"
proof (induction xs arbitrary: i)
  case Nil
  show ?case by simp
next
  case (Cons x xs)
  show ?case
  proof (cases "fst (f x i)")
    case None
    with Cons.IH [of "Suc i"] show ?thesis
      by (auto simp only: fst_filterMapFrom_Cons option.case list.set image_insert)
  next
    case (Some y)
    with assms have "statTypeHash y = statTypeHash x" by blast
    with Some Cons.IH [of "Suc i"] show ?thesis
      by (auto simp only: fst_filterMapFrom_Cons option.case list.set image_insert)
  qed
qed

lemma filterMapFrom_keys_distinct:
  assumes "\<And>x j y. fst (f x j) = Some y \<Longrightarrow> statTypeHash y = statTypeHash x"
    and "distinct (map statTypeHash xs)"
  shows "distinct (map statTypeHash (fst (filterMapFrom i xs f)))"
  using assms(2)
proof (induction xs arbitrary: i)
  case Nil
  show ?case by simp
next
  case (Cons x xs)
  from Cons.prems have d: "distinct (map statTypeHash xs)" and n: "statTypeHash x \<notin> statTypeHash ` set xs"
    by simp_all
  note IH = Cons.IH [OF d, of "Suc i"]
  show ?case
  proof (cases "fst (f x i)")
    case None
    with IH show ?thesis by (simp only: fst_filterMapFrom_Cons option.case)
  next
    case (Some y)
    with assms(1) have "statTypeHash y = statTypeHash x" by blast
    moreover have "statTypeHash ` set (fst (filterMapFrom (Suc i) xs f)) \<subseteq> statTypeHash ` set xs"
      by (rule filterMapFrom_keys_subset) (rule assms(1))
    ultimately have "statTypeHash y \<notin> statTypeHash ` set (fst (filterMapFrom (Suc i) xs f))"
      using n by auto
    with Some IH show ?thesis
      by (simp add: fst_filterMapFrom_Cons del: filterMapFrom.simps)
  qed
qed

lemma resolveStat_Some:
  "fst (resolveStat K itemDef stat) = Some y \<Longrightarrow>
     y = \<lparr>statTypeHash = statTypeHash stat, value = value stat,
          activityRule = fst (getPlugInvestmentStatActivityRule K itemDef stat)\<rparr>"
  by (auto simp: resolveStat_def split: prod.splits if_splits)

lemma elaborateStat_Some:
  "fst (elaborateStat K itemDef stats stat index) = Some y \<Longrightarrow>
     y = \<lparr>statTypeHash = statTypeHash stat, value = value stat,
          activityRule = fst (getPlugInvestmentStatActivityRule K itemDef stat)\<rparr>"
proof -
  assume "fst (elaborateStat K itemDef stats stat index) = Some y"
  then have "fst (resolveStat K itemDef stat) = Some y"
    by (auto simp: elaborateStat_def split: prod.splits if_splits)
  then show ?thesis by (rule resolveStat_Some)
qed

lemma elaborateStat_key:
  "fst (elaborateStat K itemDef stats stat index) = Some y \<Longrightarrow> statTypeHash y = statTypeHash stat"
  by (drule elaborateStat_Some) simp

lemma mapAndFilterInvestmentStats_cases:
  "mapAndFilterInvestmentStats K itemDef =
     (if fastPathApplies K itemDef (getPlugInvestmentStats (investmentStats itemDef))
      then (map asDimPlugInvestmentStat (getPlugInvestmentStats (investmentStats itemDef)), [])
      else filterMap (getPlugInvestmentStats (investmentStats itemDef))
             (elaborateStat K itemDef (getPlugInvestmentStats (investmentStats itemDef))))"
  by (simp add: mapAndFilterInvestmentStats_def hasDupes_def Let_def uniqBy_distinct
      distinct_getPlugInvestmentStats)

lemmas sample_defs = sampleDef_def sampleStat_def sampleKnownValues_def
lemmas stats_defs = mapAndFilterInvestmentStats_def hasDupes_def fastPathApplies_def
      getPlugInvestmentStats_def addInvestmentStat_def filterMap_def elaborateStat_def resolveStat_def
      getPlugInvestmentStatActivityRule_def includesOpt_def occurrences_def mergedEntry_def
      asDimPlugInvestmentStat_def Let_def

lemma keys_asDimPlugInvestmentStat:
  "map statTypeHash (map asDimPlugInvestmentStat xs) = map statTypeHash xs"
  by (induction xs) (simp_all add: asDimPlugInvestmentStat_def)

text \<open>
  C10. The entries that \<^verbatim>\<open>mapAndFilterInvestmentStats\<close> returns have pairwise
  distinct stat types, on the fast path and on the full path alike.
\<close>

theorem elaborated_stat_types_distinct:
  "distinct (map statTypeHash (fst (mapAndFilterInvestmentStats K itemDef)))"
proof (cases "fastPathApplies K itemDef (getPlugInvestmentStats (investmentStats itemDef))")
  case True
  then have "fst (mapAndFilterInvestmentStats K itemDef)
      = map asDimPlugInvestmentStat (getPlugInvestmentStats (investmentStats itemDef))"
    by (simp add: mapAndFilterInvestmentStats_cases)
  then show ?thesis
    by (simp only: keys_asDimPlugInvestmentStat distinct_getPlugInvestmentStats)
next
  case False
  have "distinct (map statTypeHash (fst (filterMapFrom 0 (getPlugInvestmentStats (investmentStats itemDef))
      (elaborateStat K itemDef (getPlugInvestmentStats (investmentStats itemDef))))))"
    by (rule filterMapFrom_keys_distinct [OF elaborateStat_key distinct_getPlugInvestmentStats])
  with False show ?thesis
    by (simp add: mapAndFilterInvestmentStats_cases filterMap_def)
qed


theorem elaborated_stat_types_distinct_witness:
  "distinct (map statTypeHash (fst (mapAndFilterInvestmentStats sampleKnownValues
      (sampleDef 10 None [sampleStat 7 5 True, sampleStat 8 1 False, sampleStat 7 (- 3) False]))))
   \<and> fst (mapAndFilterInvestmentStats sampleKnownValues
      (sampleDef 10 None [sampleStat 7 5 True, sampleStat 8 1 False, sampleStat 7 (- 3) False]))
     = [\<lparr>statTypeHash = 7, value = 2, activityRule = Some AdeptWeapon\<rparr>,
        \<lparr>statTypeHash = 8, value = 1, activityRule = None\<rparr>]"
  using elaborated_stat_types_distinct [of sampleKnownValues
      "sampleDef 10 None [sampleStat 7 5 True, sampleStat 8 1 False, sampleStat 7 (- 3) False]"]
  by (simp add: sample_defs stats_defs)




lemma filterMapFrom_cong:
  "(\<And>x j. x \<in> set xs \<Longrightarrow> f x j = g x j) \<Longrightarrow> filterMapFrom i xs f = filterMapFrom i xs g"
  by (induction xs arbitrary: i) simp_all

lemma filterMapFrom_logged:
  assumes "\<And>x j. f x j = (fst (g x), w # snd (g x))"
  shows "fst (filterMapFrom i xs f) = fst (filterMapFrom i xs (\<lambda>x j. g x))
       \<and> snd (filterMapFrom i xs f) = concat (map (\<lambda>x. w # snd (g x)) xs)"
proof (induction xs arbitrary: i)
  case Nil
  show ?case by simp
next
  case (Cons x xs)
  from Cons [of "Suc i"] assms [of x i] show ?case
    by (auto simp add: fst_filterMapFrom_Cons snd_filterMapFrom_Cons
        simp del: filterMapFrom.simps split: option.splits)
qed

lemma length_four: "length xs = 4 \<Longrightarrow> \<exists>a b c d. xs = [a, b, c, d]"
  by (auto simp: numeral_eq_Suc length_Suc_conv)



text \<open>
  On entries of pairwise distinct stat types the consolidation pass changes nothing
  and logs nothing.
\<close>

lemma consolidateStep_distinct:
  assumes "distinct (map statTypeHash (fst st))" and "idx < idx2" and "idx2 < length (fst st)"
  shows "consolidateStep idx idx2 st = st"
proof -
  obtain stats lg where st: "st = (stats, lg)" by (cases st)
  from assms st have "statTypeHash (stats ! idx) \<noteq> statTypeHash (stats ! idx2)"
    using distinct_map_nth [of statTypeHash stats idx idx2] by simp
  with st show ?thesis by (simp add: consolidateStep_def)
qed

lemma consolidateInner_distinct:
  "distinct (map statTypeHash (fst st)) \<Longrightarrow> j < length (fst st) \<Longrightarrow> consolidateInner idx j st = st"
proof (induction j)
  case 0
  show ?case by simp
next
  case (Suc j)
  show ?case
  proof (cases "Suc j > idx")
    case True
    with Suc.prems have "consolidateStep idx (Suc j) st = st"
      by (simp add: consolidateStep_distinct)
    with True Suc show ?thesis by simp
  next
    case False
    then show ?thesis by simp
  qed
qed

lemma consolidateOuter_distinct:
  "distinct (map statTypeHash (fst st)) \<Longrightarrow> n < length (fst st) \<Longrightarrow> consolidateOuter n st = st"
proof (induction n)
  case 0
  show ?case by simp
next
  case (Suc n)
  from Suc.prems have "consolidateInner n (length (fst st) - 1) st = st"
    by (simp add: consolidateInner_distinct)
  with Suc show ?case by simp
qed

lemma consolidate_distinct:
  assumes "distinct (map statTypeHash (fst st))"
  shows "consolidate st = st"
proof (cases "fst st = []")
  case True
  then show ?thesis by (simp add: consolidate_def)
next
  case False
  then have "length (fst st) - 1 < length (fst st)" by (cases "fst st") simp_all
  with assms show ?thesis by (simp add: consolidate_def consolidateOuter_distinct)
qed

text \<open>
  The elaboration of the source and the elaboration as the spec words it agree on every
  definition but a Bipod definition that meets the test of the fast path and has
  duplicates among its raw entries.
\<close>

lemma filterMapFrom_all_kept:
  "(\<And>x j. x \<in> set xs \<Longrightarrow> f x j = (Some (g x), [])) \<Longrightarrow> filterMapFrom i xs f = (map g xs, [])"
  by (induction xs arbitrary: i) simp_all

lemma resolveStat_fast:
  assumes "\<not> includesOpt (traitHashes itemDef) (ItemExoticCatalyst K)" and "\<not> isConditionallyActive s"
  shows "resolveStat K itemDef s = (Some (asDimPlugInvestmentStat s), [])"
  using assms
  by (simp add: resolveStat_def getPlugInvestmentStatActivityRule_def asDimPlugInvestmentStat_def)

lemma elaborateStatsSpec_eq:
  assumes "\<not> (hash itemDef = 2282937672
              \<and> fastPathApplies K itemDef (getPlugInvestmentStats (investmentStats itemDef))
              \<and> duplicatesDetected (investmentStats itemDef))"
  shows "elaborateStatsSpec K itemDef = mapAndFilterInvestmentStats K itemDef"
proof -
  let ?merged = "getPlugInvestmentStats (investmentStats itemDef)"
  let ?full = "filterMap ?merged (elaborateStat K itemDef ?merged)"
  have "distinct (map statTypeHash (fst (filterMapFrom 0 ?merged (elaborateStat K itemDef ?merged))))"
    by (rule filterMapFrom_keys_distinct [OF elaborateStat_key distinct_getPlugInvestmentStats])
  then have same: "consolidate ?full = ?full"
    by (simp add: consolidate_distinct filterMap_def)
  show ?thesis
  proof (cases "fastPathApplies K itemDef ?merged \<and> duplicatesDetected (investmentStats itemDef)")
    case False
    then show ?thesis
      by (auto simp: elaborateStatsSpec_def mapAndFilterInvestmentStats_cases same Let_def)
  next
    case True
    with assms have notBipod: "hash itemDef \<noteq> 2282937672" by blast
    from True have fast: "\<not> includesOpt (traitHashes itemDef) (ItemExoticCatalyst K)"
      "\<And>s. s \<in> set ?merged \<Longrightarrow> \<not> isConditionallyActive s"
      by (simp_all add: fastPathApplies_def list_all_iff)
    have "filterMapFrom 0 ?merged (elaborateStat K itemDef ?merged)
        = (map asDimPlugInvestmentStat ?merged, [])"
    proof (rule filterMapFrom_all_kept)
      fix x j assume "x \<in> set ?merged"
      with fast notBipod show "elaborateStat K itemDef ?merged x j = (Some (asDimPlugInvestmentStat x), [])"
        by (simp add: elaborateStat_def resolveStat_fast)
    qed
    then have "?full = (map asDimPlugInvestmentStat ?merged, [])"
      by (simp add: filterMap_def)
    with True same show ?thesis
      by (simp add: elaborateStatsSpec_def mapAndFilterInvestmentStats_cases Let_def)
  qed
qed







text \<open>
  C5, as amended. For the Bipod hash, when elaboration does not return on the fast
  path: with exactly four merged entries the result is what resolving the first two
  entries gives, the entries at indices 2 and 3 are dropped and the workaround logs
  nothing; with any other number of merged entries every entry is resolved as for any
  other definition and the warning is logged once for each merged entry, before what
  resolving that entry logs. On the fast path every merged entry is returned and nothing
  is logged.
\<close>

theorem bipod_workaround:
  assumes "hash itemDef = 2282937672"
  shows "(fastPathApplies K itemDef (getPlugInvestmentStats (investmentStats itemDef)) \<longrightarrow>
            mapAndFilterInvestmentStats K itemDef
              = (map asDimPlugInvestmentStat (getPlugInvestmentStats (investmentStats itemDef)), []))
       \<and> (\<not> fastPathApplies K itemDef (getPlugInvestmentStats (investmentStats itemDef))
            \<and> length (getPlugInvestmentStats (investmentStats itemDef)) = 4 \<longrightarrow>
            mapAndFilterInvestmentStats K itemDef
              = filterMap (take 2 (getPlugInvestmentStats (investmentStats itemDef)))
                  (\<lambda>stat index. resolveStat K itemDef stat))
       \<and> (\<not> fastPathApplies K itemDef (getPlugInvestmentStats (investmentStats itemDef))
            \<and> length (getPlugInvestmentStats (investmentStats itemDef)) \<noteq> 4 \<longrightarrow>
            fst (mapAndFilterInvestmentStats K itemDef)
              = fst (filterMap (getPlugInvestmentStats (investmentStats itemDef))
                       (\<lambda>stat index. resolveStat K itemDef stat))
            \<and> snd (mapAndFilterInvestmentStats K itemDef)
              = concat (map (\<lambda>stat. WarnBipodWorkaround # snd (resolveStat K itemDef stat))
                         (getPlugInvestmentStats (investmentStats itemDef))))"
proof (intro conjI impI)
  let ?merged = "getPlugInvestmentStats (investmentStats itemDef)"
  assume "fastPathApplies K itemDef ?merged"
  then show "mapAndFilterInvestmentStats K itemDef = (map asDimPlugInvestmentStat ?merged, [])"
    by (simp add: mapAndFilterInvestmentStats_cases)
next
  let ?merged = "getPlugInvestmentStats (investmentStats itemDef)"
  assume a: "\<not> fastPathApplies K itemDef ?merged \<and> length ?merged = 4"
  then obtain s0 s1 s2 s3 where m: "?merged = [s0, s1, s2, s3]"
    using length_four by blast
  from a have "mapAndFilterInvestmentStats K itemDef = filterMap ?merged (elaborateStat K itemDef ?merged)"
    by (simp add: mapAndFilterInvestmentStats_cases)
  also have "\<dots> = filterMap (take 2 ?merged) (\<lambda>stat index. resolveStat K itemDef stat)"
    unfolding m using assms
    by (simp add: filterMap_def elaborateStat_def numeral_2_eq_2 split: prod.splits)
  finally show "mapAndFilterInvestmentStats K itemDef
      = filterMap (take 2 ?merged) (\<lambda>stat index. resolveStat K itemDef stat)" .
next
  let ?merged = "getPlugInvestmentStats (investmentStats itemDef)"
  assume a: "\<not> fastPathApplies K itemDef ?merged \<and> length ?merged \<noteq> 4"
  then have eq: "mapAndFilterInvestmentStats K itemDef = filterMapFrom 0 ?merged (elaborateStat K itemDef ?merged)"
    by (simp add: mapAndFilterInvestmentStats_cases filterMap_def)
  have "\<And>x j. elaborateStat K itemDef ?merged x j
      = (fst (resolveStat K itemDef x), WarnBipodWorkaround # snd (resolveStat K itemDef x))"
    using a assms by (simp add: elaborateStat_def split: prod.splits)
  from filterMapFrom_logged [of "elaborateStat K itemDef ?merged" "resolveStat K itemDef"
      WarnBipodWorkaround 0 ?merged, OF this]
  show "fst (mapAndFilterInvestmentStats K itemDef)
              = fst (filterMap ?merged (\<lambda>stat index. resolveStat K itemDef stat))"
    and "snd (mapAndFilterInvestmentStats K itemDef)
              = concat (map (\<lambda>stat. WarnBipodWorkaround # snd (resolveStat K itemDef stat)) ?merged)"
    by (simp_all add: eq filterMap_def)
qed

text \<open>
  Two Bipod definitions with four conditionally active raw entries: of four stat
  types, where the last two entries are dropped; and of two stat types, each twice, as
  the comment in the source lists them, where the merge leaves two entries, so that the
  workaround only logs its warning.
\<close>

theorem bipod_workaround_witness:
  "hash (sampleDef 2282937672 None
      [sampleStat 7 (- 25) True, sampleStat 8 (- 15) True, sampleStat 9 (- 30) True, sampleStat 10 (- 20) True])
     = 2282937672
   \<and> getPlugInvestmentStats
        [sampleStat 7 (- 25) True, sampleStat 8 (- 15) True, sampleStat 9 (- 30) True, sampleStat 10 (- 20) True]
     = [sampleStat 7 (- 25) True, sampleStat 8 (- 15) True, sampleStat 9 (- 30) True, sampleStat 10 (- 20) True]
   \<and> mapAndFilterInvestmentStats sampleKnownValues (sampleDef 2282937672 None
      [sampleStat 7 (- 25) True, sampleStat 8 (- 15) True, sampleStat 9 (- 30) True, sampleStat 10 (- 20) True])
     = ([\<lparr>statTypeHash = 7, value = - 25, activityRule = None\<rparr>,
         \<lparr>statTypeHash = 8, value = - 15, activityRule = None\<rparr>], [])
   \<and> getPlugInvestmentStats
        [sampleStat 7 (- 25) True, sampleStat 8 (- 15) True, sampleStat 7 (- 30) True, sampleStat 8 (- 20) True]
     = [sampleStat 7 (- 55) True, sampleStat 8 (- 35) True]
   \<and> mapAndFilterInvestmentStats sampleKnownValues (sampleDef 2282937672 None
      [sampleStat 7 (- 25) True, sampleStat 8 (- 15) True, sampleStat 7 (- 30) True, sampleStat 8 (- 20) True])
     = ([\<lparr>statTypeHash = 7, value = - 55, activityRule = None\<rparr>,
         \<lparr>statTypeHash = 8, value = - 35, activityRule = None\<rparr>],
        [WarnBipodWorkaround, WarnBipodWorkaround])"
  using bipod_workaround [of "sampleDef 2282937672 None
      [sampleStat 7 (- 25) True, sampleStat 8 (- 15) True, sampleStat 9 (- 30) True, sampleStat 10 (- 20) True]"
      sampleKnownValues]
    bipod_workaround [of "sampleDef 2282937672 None
      [sampleStat 7 (- 25) True, sampleStat 8 (- 15) True, sampleStat 7 (- 30) True, sampleStat 8 (- 20) True]"
      sampleKnownValues]
  by (simp add: sample_defs stats_defs numeral_2_eq_2)

text \<open>
  C5, as stated, fails: a Bipod definition with four merged entries, none of them
  conditionally active, and without the exotic-catalyst trait returns on the fast path
  with all four entries.
\<close>

theorem bipod_fast_path_counterexample:
  "hash (sampleDef 2282937672 None
      [sampleStat 7 (- 25) False, sampleStat 8 (- 15) False, sampleStat 9 (- 30) False, sampleStat 10 (- 20) False])
     = 2282937672
   \<and> length (getPlugInvestmentStats
        [sampleStat 7 (- 25) False, sampleStat 8 (- 15) False, sampleStat 9 (- 30) False, sampleStat 10 (- 20) False])
     = 4
   \<and> mapAndFilterInvestmentStats sampleKnownValues (sampleDef 2282937672 None
      [sampleStat 7 (- 25) False, sampleStat 8 (- 15) False, sampleStat 9 (- 30) False, sampleStat 10 (- 20) False])
     = ([\<lparr>statTypeHash = 7, value = - 25, activityRule = None\<rparr>,
         \<lparr>statTypeHash = 8, value = - 15, activityRule = None\<rparr>,
         \<lparr>statTypeHash = 9, value = - 30, activityRule = None\<rparr>,
         \<lparr>statTypeHash = 10, value = - 20, activityRule = None\<rparr>], [])"
  by (simp add: sample_defs stats_defs)

subsection \<open>The activity rule of a stat\<close>

text \<open>
  C3. For a definition that carries the exotic-catalyst trait,
  \<^verbatim>\<open>getPlugInvestmentStatActivityRule\<close> returns the masterwork rule for every stat
  entry, whatever its \<^verbatim>\<open>isConditionallyActive\<close> flag, the hash of the definition and
  its plug category: the test of the trait comes before every other test.
\<close>

theorem exotic_catalyst_rule_is_masterwork:
  assumes "traitHashes itemDef = Some traits" and "ItemExoticCatalyst K \<in> set traits"
  shows "getPlugInvestmentStatActivityRule K itemDef stat = (Some Masterwork, [])"
  using assms by (simp add: getPlugInvestmentStatActivityRule_def includesOpt_def)

theorem exotic_catalyst_rule_is_masterwork_witness:
  "traitHashes (sampleDef 3 (Some [8, 1]) [sampleStat 7 5 False]) = Some [8, 1]
   \<and> ItemExoticCatalyst sampleKnownValues \<in> set [8, 1]
   \<and> hash (sampleDef 3 (Some [8, 1]) [sampleStat 7 5 False]) = ElementalCapacitor sampleKnownValues
   \<and> sampleStat 7 5 False \<in> set (investmentStats (sampleDef 3 (Some [8, 1]) [sampleStat 7 5 False]))
   \<and> getPlugInvestmentStatActivityRule sampleKnownValues
        (sampleDef 3 (Some [8, 1]) [sampleStat 7 5 False]) (sampleStat 7 5 False)
     = (Some Masterwork, [])"
  using exotic_catalyst_rule_is_masterwork
    [of "sampleDef 3 (Some [8, 1]) [sampleStat 7 5 False]" "[8, 1]" sampleKnownValues
        "sampleStat 7 5 False"]
  by (simp add: sampleDef_def sampleKnownValues_def)

text \<open>
  C1, as amended. For a definition whose hash is one of the two elemental capacitor
  hashes, the rule of a stat entry is never-active when the definition lacks the
  exotic-catalyst trait and the entry is conditionally active. An entry whose
  \<^verbatim>\<open>isConditionallyActive\<close> flag is unset is always active (no rule), and with the
  exotic-catalyst trait the rule is the masterwork rule. Nothing is logged.
\<close>

theorem elemental_capacitor_rule:
  assumes "hash itemDef = ElementalCapacitor K \<or> hash itemDef = EnhancedElementalCapacitor K"
  shows "getPlugInvestmentStatActivityRule K itemDef stat =
           (if includesOpt (traitHashes itemDef) (ItemExoticCatalyst K) then Some Masterwork
            else if isConditionallyActive stat then Some Never
            else None, [])"
  using assms by (auto simp: getPlugInvestmentStatActivityRule_def Let_def)

theorem elemental_capacitor_rule_witness:
  "hash (sampleDef 4 None [sampleStat 7 5 True]) = EnhancedElementalCapacitor sampleKnownValues
   \<and> sampleStat 7 5 True \<in> set (investmentStats (sampleDef 4 None [sampleStat 7 5 True]))
   \<and> getPlugInvestmentStatActivityRule sampleKnownValues (sampleDef 4 None [sampleStat 7 5 True])
        (sampleStat 7 5 True) = (Some Never, [])"
  using elemental_capacitor_rule
    [of "sampleDef 4 None [sampleStat 7 5 True]" sampleKnownValues "sampleStat 7 5 True"]
  by (simp add: sampleDef_def sampleKnownValues_def sampleStat_def includesOpt_def)

text \<open>
  C1, as stated, fails: the entry of an elemental capacitor whose
  \<^verbatim>\<open>isConditionallyActive\<close> flag is unset has no rule, so it is always active.
\<close>

theorem elemental_capacitor_unconditional_counterexample:
  "hash (sampleDef 3 None [sampleStat 7 5 False]) = ElementalCapacitor sampleKnownValues
   \<and> sampleStat 7 5 False \<in> set (investmentStats (sampleDef 3 None [sampleStat 7 5 False]))
   \<and> \<not> isConditionallyActive (sampleStat 7 5 False)
   \<and> getPlugInvestmentStatActivityRule sampleKnownValues (sampleDef 3 None [sampleStat 7 5 False])
        (sampleStat 7 5 False) = (None, [])"
  by (simp add: getPlugInvestmentStatActivityRule_def sampleDef_def sampleKnownValues_def
      sampleStat_def includesOpt_def)

subsection \<open>Whether a rule is satisfied\<close>

text \<open>
  C6. For a class-gated rule, \<^verbatim>\<open>isPlugStatActive\<close> without an item and without a
  class type answers true and logs a warning. With a class type passed it answers
  whether that class is the class of the rule, whether or not there is an item; without
  one it answers whether the class of the item is the class of the rule. In these
  cases nothing is logged.
\<close>

theorem class_rule_satisfied:
  "isPlugStatActive K (Some (ClassType c)) None None = (True, [WarnMissingClassType])
   \<and> isPlugStatActive K (Some (ClassType c)) item (Some given) = (given = c, [])
   \<and> isPlugStatActive K (Some (ClassType c)) (Some i) None = (classType i = c, [])"
  by (simp add: isPlugStatActive_def)

section \<open>Properties of the plug descriptions\<close>

subsection \<open>The used strings\<close>

text \<open>Only non-empty strings are ever recorded as used.\<close>

lemma useString_no_empty:
  "[] \<notin> used \<Longrightarrow> useString used (orUndefined s) = (r, used') \<Longrightarrow> [] \<notin> used'"
  by (auto simp: useString_def orUndefined_def split: if_splits)

lemma describePerk_no_empty:
  assumes "[] \<notin> snd st" and "describePerk p defs perk st = Inr st'"
  shows "[] \<notin> snd st'"
proof (cases perk)
  case None
  with assms show ?thesis by (simp add: describePerk_def)
next
  case (Some e)
  show ?thesis
  proof (cases "perkVisibility e = Hidden")
    case True
    with Some assms show ?thesis by (simp add: describePerk_def)
  next
    case False
    obtain results used where st: "st = (results, used)" by (cases st)
    from False Some assms obtain sp where sp: "SandboxPerk defs (perkHash e) = Some sp"
      by (auto simp: describePerk_def split: option.splits)
    obtain d used1 where u1: "useString used (orUndefined (description (displayProperties sp))) = (d, used1)"
      by (cases "useString used (orUndefined (description (displayProperties sp)))")
    obtain q used2 where u2: "useString used1 (orUndefined (requirementDisplayString e)) = (q, used2)"
      by (cases "useString used1 (orUndefined (requirementDisplayString e))")
    from assms(1) st have "[] \<notin> used" by simp
    from useString_no_empty [OF this u1] have "[] \<notin> used1" .
    from useString_no_empty [OF this u2] have "[] \<notin> used2" .
    moreover from assms(2) Some False sp st u1 u2 have "snd st' = used2"
      by (auto simp: describePerk_def split: if_splits)
    ultimately show ?thesis by simp
  qed
qed

lemma describePerks_no_empty:
  "[] \<notin> snd st \<Longrightarrow> describePerks p defs ps st = Inr st' \<Longrightarrow> [] \<notin> snd st'"
proof (induction ps arbitrary: st)
  case Nil
  then show ?case by simp
next
  case (Cons a ps)
  from Cons.prems(2) obtain st1 where a: "describePerk p defs a st = Inr st1"
    and rest: "describePerks p defs ps st1 = Inr st'"
    by (auto split: sum.splits)
  from describePerk_no_empty [OF Cons.prems(1) a] have "[] \<notin> snd st1" .
  from Cons.IH [OF this rest] show ?case .
qed

lemma addPerkDescriptions_no_empty:
  "[] \<notin> snd st \<Longrightarrow> addPerkDescriptions K p defs st = Inr st' \<Longrightarrow> [] \<notin> snd st'"
  by (auto simp: addPerkDescriptions_def split: sum.splits dest: describePerks_no_empty)

lemma addDescriptionAsRequirement_no_empty:
  "[] \<notin> used \<Longrightarrow> [] \<notin> snd (addDescriptionAsRequirement p (results, used))"
  by (auto simp: addDescriptionAsRequirement_def orUndefined_def split: prod.splits option.splits if_splits)

lemma addDescriptionAsFunctionality_no_empty:
  "[] \<notin> used \<Longrightarrow> [] \<notin> snd (addDescriptionAsFunctionality p (results, used))"
  by (auto simp: addDescriptionAsFunctionality_def orUndefined_def split: prod.splits option.splits if_splits)

lemma describeByCategory_no_empty:
  assumes "describeByCategory K p defs = Inr st"
  shows "[] \<notin> snd st"
proof -
  have start: "[] \<notin> snd (([], {}) :: descState)" by simp
  note perks = addPerkDescriptions_no_empty [OF start]
  from assms show ?thesis
    by (auto simp: describeByCategory_def split: if_splits sum.splits
        simp: addDescriptionAsRequirement_no_empty addDescriptionAsFunctionality_no_empty
        dest!: perks)
qed

lemma keepFirstPerk_no_empty:
  assumes "[] \<notin> snd st" and "keepFirstPerk p defs st = Inr st'"
  shows "[] \<notin> snd st'"
proof (cases "fst st = [] \<and> perks p \<noteq> []")
  case False
  with assms show ?thesis by (auto simp: keepFirstPerk_def split: prod.splits)
next
  case True
  obtain results used where st: "st = (results, used)" by (cases st)
  let ?e = "hd (perks p)"
  from True assms st obtain sp where sp: "SandboxPerk defs (perkHash ?e) = Some sp"
    by (auto simp: keepFirstPerk_def Let_def split: option.splits)
  obtain d used1 where u1: "useString used (orUndefined (description (displayProperties sp))) = (d, used1)"
    by (cases "useString used (orUndefined (description (displayProperties sp)))")
  obtain q used2 where u2: "useString used1 (orUndefined (requirementDisplayString ?e)) = (q, used2)"
    by (cases "useString used1 (orUndefined (requirementDisplayString ?e))")
  from assms(1) st have "[] \<notin> used" by simp
  from useString_no_empty [OF this u1] have "[] \<notin> used1" .
  from useString_no_empty [OF this u2] have "[] \<notin> used2" .
  moreover from assms(2) True sp st u1 u2 have "snd st' = used2"
    by (auto simp: keepFirstPerk_def Let_def split: if_splits)
  ultimately show ?thesis by simp
qed

lemma getPerkDescriptions_no_empty:
  "getPerkDescriptions K p defs = Inr (official, used) \<Longrightarrow> [] \<notin> used"
  by (auto simp: getPerkDescriptions_def split: sum.splits
      dest!: describeByCategory_no_empty dest: keepFirstPerk_no_empty)


subsection \<open>Stripping the community insight\<close>

lemma keepContent_iff:
  "[] \<notin> used \<Longrightarrow> keepContent used c \<longleftrightarrow> (\<forall>t. text c = Some t \<longrightarrow> t \<notin> used)"
  by (auto simp: keepContent_def split: option.splits)

lemma stripLine_eq:
  assumes "[] \<notin> used"
  shows "stripLine used l
     = l\<lparr>lineText := map_option (filter (\<lambda>c. \<forall>t. text c = Some t \<longrightarrow> t \<notin> used)) (lineText l)\<rparr>"
proof (cases "lineText l")
  case None
  then show ?thesis by (simp add: stripLine_def)
next
  case (Some cs)
  have "filter (keepContent used) cs = filter (\<lambda>c. \<forall>t. text c = Some t \<longrightarrow> t \<notin> used) cs"
    by (rule filter_cong) (simp_all add: keepContent_iff [OF assms])
  with Some show ?thesis by (simp add: stripLine_def)
qed

lemma hasContent_stripLine:
  assumes "[] \<notin> used"
  shows "hasContent (stripLine used l)
     \<longleftrightarrow> (\<exists>cs. lineText l = Some cs \<and> (\<exists>c \<in> set cs. \<forall>t. text c = Some t \<longrightarrow> t \<notin> used))"
proof (cases "lineText l")
  case None
  then show ?thesis by (simp add: stripLine_def hasContent_def)
next
  case (Some cs)
  then have "hasContent (stripLine used l) \<longleftrightarrow> filter (keepContent used) cs \<noteq> []"
    by (simp add: stripLine_def hasContent_def)
  also have "\<dots> \<longleftrightarrow> (\<exists>c \<in> set cs. keepContent used c)"
    by (simp add: filter_empty_conv)
  finally show ?thesis using Some by (simp add: keepContent_iff [OF assms])
qed

lemma stripUsedStrings_eq:
  assumes "[] \<notin> used" and "simpleDescription ci = Some lines"
  shows "stripUsedStrings ci used =
     (if \<forall>l \<in> set lines. \<forall>cs. lineText l = Some cs \<longrightarrow> (\<forall>c \<in> set cs. \<exists>t. text c = Some t \<and> t \<in> used)
      then None
      else Some (ci\<lparr>simpleDescription := Some (map (\<lambda>l. l\<lparr>lineText :=
             map_option (filter (\<lambda>c. \<forall>t. text c = Some t \<longrightarrow> t \<notin> used)) (lineText l)\<rparr>) lines)\<rparr>))"
proof -
  have "list_ex hasContent (map (stripLine used) lines)
      \<longleftrightarrow> (\<exists>l \<in> set lines. \<exists>cs. lineText l = Some cs \<and> (\<exists>c \<in> set cs. \<forall>t. text c = Some t \<longrightarrow> t \<notin> used))"
    by (simp add: list_ex_iff hasContent_stripLine [OF assms(1)])
  then have ex: "\<not> list_ex hasContent (map (stripLine used) lines)
      \<longleftrightarrow> (\<forall>l \<in> set lines. \<forall>cs. lineText l = Some cs \<longrightarrow> (\<forall>c \<in> set cs. \<exists>t. text c = Some t \<and> t \<in> used))"
    by blast
  have m: "map (stripLine used) lines = map (\<lambda>l. l\<lparr>lineText :=
             map_option (filter (\<lambda>c. \<forall>t. text c = Some t \<longrightarrow> t \<notin> used)) (lineText l)\<rparr>) lines"
    by (rule map_cong) (simp_all add: stripLine_eq [OF assms(1)])
  from assms(2) have "stripUsedStrings ci used =
     (if \<not> list_ex hasContent (map (stripLine used) lines) then None
      else Some (ci\<lparr>simpleDescription := Some (map (stripLine used) lines)\<rparr>))"
    by (simp add: stripUsedStrings_def Let_def)
  also have "\<dots> =
     (if \<forall>l \<in> set lines. \<forall>cs. lineText l = Some cs \<longrightarrow> (\<forall>c \<in> set cs. \<exists>t. text c = Some t \<and> t \<in> used)
      then None
      else Some (ci\<lparr>simpleDescription := Some (map (\<lambda>l. l\<lparr>lineText :=
             map_option (filter (\<lambda>c. \<forall>t. text c = Some t \<longrightarrow> t \<notin> used)) (lineText l)\<rparr>) lines)\<rparr>))"
    by (subst ex, subst m, rule refl)
  finally show ?thesis .
qed

lemmas description_sample_defs = sampleDescriptionKnownValues_def samplePlug_def sampleManifest_def
  samplePerk_def sampleInsight_def sampleClarity_def
lemmas description_defs = usePlugDescriptions_def getPerkDescriptions_def describeByCategory_def
  addPerkDescriptions_def perksToDescribe_def describePerk_def addDescriptionAsFunctionality_def
  addDescriptionAsRequirement_def keepFirstPerk_def orUndefined_def useString_def perkNameOf_def
  includesOpt_def stripUsedStrings_def stripLine_def keepContent_def hasContent_def truthy_def Let_def

text \<open>
  C7. A plug whose official description is "Deals fire damage". A community insight
  whose only content is that text is stripped to nothing and left out of the composed
  result. An insight with that content and a content without text keeps the latter
  after stripping: no text is left in any line, and the insight is still part of the
  composed result.
\<close>

theorem textless_content_keeps_insight:
  "usePlugDescriptions sampleDescriptionKnownValues True
        (Some (samplePlug 30 None None ''Deals fire damage'' [])) (Some sampleManifest)
        (Some (sampleClarity 30 (sampleInsight [Some ''Deals fire damage''])))
        Both
     = Inr \<lparr>perks' = [\<lparr>perkHash = 0, name' = None,
                         description' = Some ''Deals fire damage'', requirement = None\<rparr>],
            communityInsight = None\<rparr>
   \<and> usePlugDescriptions sampleDescriptionKnownValues True
        (Some (samplePlug 30 None None ''Deals fire damage'' [])) (Some sampleManifest)
        (Some (sampleClarity 30 (sampleInsight [Some ''Deals fire damage'', None])))
        Both
     = Inr \<lparr>perks' = [\<lparr>perkHash = 0, name' = None,
                         description' = Some ''Deals fire damage'', requirement = None\<rparr>],
            communityInsight = Some (sampleInsight [None])\<rparr>"
  by (simp add: description_sample_defs description_defs)

theorem textless_content_keeps_insight_witness:
  "\<exists>r. usePlugDescriptions sampleDescriptionKnownValues True
        (Some (samplePlug 30 None None ''Deals fire damage'' [])) (Some sampleManifest)
        (Some (sampleClarity 30 (sampleInsight [Some ''Deals fire damage'', None])))
        Both = Inr r
      \<and> communityInsight r = Some (sampleInsight [None])"
  using textless_content_keeps_insight by simp

subsection \<open>Composing the descriptions\<close>

text \<open>
  C8, as amended. In community-only display, when no community text survives because
  the community descriptions are disabled, none exists for the plug, the one that
  exists is stat-only, it has no lines, or every content of every line carries a text
  that the official perk descriptions use, the composed result is exactly the official
  perk descriptions that \<^verbatim>\<open>getPerkDescriptions\<close> returns, without a community
  insight. The result is then blank exactly when there are no official perk
  descriptions.
\<close>

theorem community_only_returns_official:
  assumes "getPerkDescriptions K p defs = Inr (official, used)"
    and "\<not> flag
         \<or> (case Option.bind clarity (\<lambda>t. t (hash p)) of
              None \<Rightarrow> True
            | Some clarityPerk \<Rightarrow>
                truthy (statOnly clarityPerk)
                \<or> (case simpleDescription clarityPerk of
                     None \<Rightarrow> True
                   | Some lines \<Rightarrow>
                       \<forall>l \<in> set lines. \<forall>cs. lineText l = Some cs \<longrightarrow>
                         (\<forall>c \<in> set cs. \<exists>t. text c = Some t \<and> t \<in> used)))"
  shows "usePlugDescriptions K flag (Some p) (Some defs) clarity Community
           = Inr \<lparr>perks' = official, communityInsight = None\<rparr>"
proof (cases "flag")
  case False
  with assms(1) show ?thesis by (simp add: usePlugDescriptions_def)
next
  case True
  note flag = this
  show ?thesis
  proof (cases "Option.bind clarity (\<lambda>t. t (hash p))")
    case None
    with assms(1) flag show ?thesis by (simp add: usePlugDescriptions_def)
  next
    case (Some clarityPerk)
    show ?thesis
    proof (cases "truthy (statOnly clarityPerk)")
      case True
      with assms(1) flag Some show ?thesis by (simp add: usePlugDescriptions_def)
    next
      case False
      have "stripUsedStrings clarityPerk used = None"
      proof (cases "simpleDescription clarityPerk")
        case None
        then show ?thesis by (simp add: stripUsedStrings_def)
      next
        case (Some lines)
        from getPerkDescriptions_no_empty [OF assms(1)] have "[] \<notin> used" .
        note strip = stripUsedStrings_eq [OF this Some]
        from assms(2) flag \<open>Option.bind clarity (\<lambda>t. t (hash p)) = Some clarityPerk\<close> False Some
        have "\<forall>l \<in> set lines. \<forall>cs. lineText l = Some cs \<longrightarrow>
                         (\<forall>c \<in> set cs. \<exists>t. text c = Some t \<and> t \<in> used)"
          by simp
        with strip show ?thesis by simp
      qed
      with assms(1) flag Some False show ?thesis by (simp add: usePlugDescriptions_def)
    qed
  qed
qed

theorem community_only_returns_official_witness:
  "getPerkDescriptions sampleDescriptionKnownValues (samplePlug 30 None None [] [samplePerk]) sampleManifest
     = Inr ([\<lparr>perkHash = 20, name' = Some ''Perk'', description' = Some ''Deals fire damage'',
              requirement = None\<rparr>], {''Deals fire damage''})
   \<and> usePlugDescriptions sampleDescriptionKnownValues True
        (Some (samplePlug 30 None None [] [samplePerk])) (Some sampleManifest)
        (Some (sampleClarity 30 (sampleInsight [Some ''Deals fire damage''])))
        Community
     = Inr \<lparr>perks' = [\<lparr>perkHash = 20, name' = Some ''Perk'',
                         description' = Some ''Deals fire damage'', requirement = None\<rparr>],
            communityInsight = None\<rparr>"
  using community_only_returns_official [of sampleDescriptionKnownValues
      "samplePlug 30 None None [] [samplePerk]" sampleManifest
      "[\<lparr>perkHash = 20, name' = Some ''Perk'', description' = Some ''Deals fire damage'',
              requirement = None\<rparr>]" "{''Deals fire damage''}" True
      "Some (sampleClarity 30 (sampleInsight [Some ''Deals fire damage'']))"]
  by (simp add: description_sample_defs description_defs)

text \<open>
  C8, as stated, fails: a plug without description and without perks, for which no
  community insight exists, is left blank in community-only display.
\<close>

theorem no_official_text_left_blank_counterexample:
  "Option.bind (Some (sampleClarity 31 (sampleInsight [Some ''Burns the target''])))
      (\<lambda>t. t (hash (samplePlug 30 None None [] []))) = None
   \<and> usePlugDescriptions sampleDescriptionKnownValues True
        (Some (samplePlug 30 None None [] [])) (Some sampleManifest)
        (Some (sampleClarity 31 (sampleInsight [Some ''Burns the target''])))
        Community
     = Inr \<lparr>perks' = [], communityInsight = None\<rparr>"
  by (simp add: description_sample_defs description_defs)

text \<open>
  C9, as amended. For an armor mod that does not carry the exotic-catalyst trait and is
  not Echo of Persistence, with no perks and a non-empty description,
  \<^verbatim>\<open>getPerkDescriptions\<close> returns exactly one entry: its description is the
  description of the definition, it has no requirement and no name. The composed result
  has exactly this entry, except in community-only display with a community insight,
  where it has no perk descriptions.
\<close>

theorem armor_mod_description_without_perks:
  assumes "itemCategoryHashes p = Some categories" and "ArmorMods K \<in> set categories"
    and "\<not> includesOpt (traitHashes p) (EXOTIC_CATALYST_TRAIT K)"
    and "hash p \<noteq> echoOfPersistence K"
    and "perks p = []" and "description (displayProperties p) \<noteq> []"
  shows "getPerkDescriptions K p defs
           = Inr ([\<lparr>perkHash = 0, name' = None,
                     description' = Some (description (displayProperties p)),
                     requirement = None\<rparr>],
                  {description (displayProperties p)})
       \<and> (\<exists>r. usePlugDescriptions K flag (Some p) (Some defs) clarity shown = Inr r
            \<and> perks' r =
                (if flag \<and> shown = Community \<and> communityInsight r \<noteq> None then []
                 else [\<lparr>perkHash = 0, name' = None,
                         description' = Some (description (displayProperties p)),
                         requirement = None\<rparr>]))"
proof -
  from assms have g: "getPerkDescriptions K p defs
           = Inr ([\<lparr>perkHash = 0, name' = None,
                     description' = Some (description (displayProperties p)),
                     requirement = None\<rparr>],
                  {description (displayProperties p)})"
    by (simp add: getPerkDescriptions_def describeByCategory_def addPerkDescriptions_def
        perksToDescribe_def addDescriptionAsFunctionality_def keepFirstPerk_def orUndefined_def
        includesOpt_def)
  then show ?thesis
    by (auto simp: usePlugDescriptions_def split: option.splits)
qed


theorem armor_mod_description_without_perks_witness:
  "itemCategoryHashes (samplePlug 30 None (Some [14]) ''Reduces incoming damage'' []) = Some [14]
   \<and> ArmorMods sampleDescriptionKnownValues \<in> set [14]
   \<and> getPerkDescriptions sampleDescriptionKnownValues
        (samplePlug 30 None (Some [14]) ''Reduces incoming damage'' []) sampleManifest
     = Inr ([\<lparr>perkHash = 0, name' = None, description' = Some ''Reduces incoming damage'',
              requirement = None\<rparr>], {''Reduces incoming damage''})
   \<and> usePlugDescriptions sampleDescriptionKnownValues False
        (Some (samplePlug 30 None (Some [14]) ''Reduces incoming damage'' [])) (Some sampleManifest)
        None Both
     = Inr \<lparr>perks' = [\<lparr>perkHash = 0, name' = None,
                         description' = Some ''Reduces incoming damage'', requirement = None\<rparr>],
            communityInsight = None\<rparr>"
  using armor_mod_description_without_perks [of
      "samplePlug 30 None (Some [14]) ''Reduces incoming damage'' []" "[14]"
      sampleDescriptionKnownValues sampleManifest False None Both]
  by (simp add: description_sample_defs description_defs)

text \<open>
  C9, as stated, fails: for an armor mod that also carries the exotic-catalyst trait the
  branch of the catalysts is taken, and the description becomes the requirement of the
  only entry.
\<close>

theorem armor_mod_with_catalyst_trait_counterexample:
  "includesOpt (itemCategoryHashes (samplePlug 30 (Some [1]) (Some [14]) ''Requires a catalyst'' []))
      (ArmorMods sampleDescriptionKnownValues)
   \<and> perks (samplePlug 30 (Some [1]) (Some [14]) ''Requires a catalyst'' []) = []
   \<and> usePlugDescriptions sampleDescriptionKnownValues False
        (Some (samplePlug 30 (Some [1]) (Some [14]) ''Requires a catalyst'' [])) (Some sampleManifest)
        None Both
     = Inr \<lparr>perks' = [\<lparr>perkHash = 0, name' = None, description' = None,
                         requirement = Some ''Requires a catalyst''\<rparr>],
            communityInsight = None\<rparr>"
  by (simp add: description_sample_defs description_defs)

end
